theory Spec2Isabelle
  imports Main
begin

section \<open>JavaScript values\<close>

text \<open>
  The values that flow through the helper are dynamically typed (\<open>any\<close> in the source).
  They are modelled by the primitive JavaScript values a driver yields for scalar columns.
  Numbers are integers (counts, identities, return codes); \<open>NaN\<close> is kept apart because it
  is the one number besides zero that is falsy. \<open>JBuiltin n\<close> is the member named \<open>n\<close> of
  \<open>Object.prototype\<close>, which a property read on a plain object finds when the object has
  no property of that name itself: a built-in function, or for \<open>__proto__\<close> the prototype
  object.
\<close>

datatype jsval = JUndefined | JNull | JBool bool | JNum int | JNaN | JStr string | JBuiltin string

text \<open>JavaScript truthiness (\<open>ToBoolean\<close>) and the operator \<open>a || b\<close>.\<close>

fun truthy :: "jsval \<Rightarrow> bool" where
  "truthy JUndefined = False"
| "truthy JNull = False"
| "truthy (JBool b) = b"
| "truthy (JNum n) = (n \<noteq> 0)"
| "truthy JNaN = False"
| "truthy (JStr s) = (s \<noteq> [])"
| "truthy (JBuiltin n) = True"

definition js_or :: "jsval \<Rightarrow> jsval \<Rightarrow> jsval" where
  "js_or a b = (if truthy a then a else b)"

text \<open>
  The source declares no error class of its own: every failure is a value thrown by the
  driver or by the runtime, and is rethrown unchanged. The kinds below are the ones the
  specification's taxonomy names, together with JavaScript's \<open>TypeError\<close>.
\<close>

datatype error =
    ConfigurationError
  | ConnectionError string
  | ExecutionError string
  | TypeError string

section \<open>Types of the source\<close>

text \<open>\<open>sql.ISqlType\<close>: an opaque type object (always truthy).\<close>

datatype ISqlType = SqlType string

record SqlParameter =
  pname :: string
  pvalue :: jsval
  ptype :: "ISqlType option"

text \<open>
  An object with optional, open-ended properties (\<open>options\<close>, \<open>pool\<close>, a result row) is a
  map from property names to values; an absent property is \<open>None\<close>.
\<close>

type_synonym obj = "string \<rightharpoonup> jsval"

record SqlConfig =
  user :: string
  password :: string
  server :: string
  database :: string
  options :: "obj option"
  pool :: "obj option"

datatype QueryType = Text | StoredProcedure

text \<open>
  \<open>IResult\<close> of the driver: the record sets (\<open>recordset\<close> is the first one, \<open>undefined\<close> when
  the statement produced none), the affected-row counts, and the return value of a
  procedure (\<open>JUndefined\<close> when there is none).
\<close>

record IResult =
  recordsets :: "obj list list option"
  recordset :: "obj list option"
  rowsAffected :: "int list"
  returnValue :: jsval

section \<open>The environment: driver and runtime\<close>

text \<open>
  A call \<open>request.input(name, value)\<close> or \<open>request.input(name, type, value)\<close>.
\<close>

datatype input_call = Input2 string jsval | Input3 string ISqlType jsval

text \<open>
  Everything outside the source is a parameter:
  \<^item> \<open>ctor c\<close>: what \<open>new sql.ConnectionPool(c)\<close> throws, if anything;
  \<^item> \<open>connect k\<close>: how the \<open>connect()\<close> of the \<open>k\<close>-th constructed pool settles
    (\<open>None\<close> is success, the promise resolving to the pool itself);
  \<^item> \<open>input_throws c\<close>: what \<open>request.input\<close> throws on the call \<open>c\<close>, if anything;
  \<^item> \<open>exec kind q inputs\<close>: the outcome of \<open>request.execute(q)\<close> (\<open>StoredProcedure\<close>) or
    \<open>request.query(q)\<close> (\<open>Text\<close>) on a request with the given inputs;
  \<^item> \<open>string_to_number\<close>: the runtime's \<open>ToNumber\<close> on strings (\<open>None\<close> is \<open>NaN\<close>).
\<close>

record env =
  ctor :: "SqlConfig option \<Rightarrow> error option"
  connect :: "nat \<Rightarrow> error option"
  input_throws :: "input_call \<Rightarrow> error option"
  exec :: "QueryType \<Rightarrow> string \<Rightarrow> input_call list \<Rightarrow> error + IResult"
  string_to_number :: "string \<Rightarrow> int option"

section \<open>State of the helper\<close>

text \<open>
  The promise cached in \<open>poolPromise\<close> is the one returned by
  \<open>connect().then(..).catch(..)\<close>. It is pending while the \<open>connect()\<close> of pool \<open>k\<close> is in
  flight, then fulfilled with that pool or rejected with the driver's error.
\<close>

datatype pstate = Pending nat | Fulfilled nat | Rejected error

text \<open>
  The two static fields of \<open>SqlHelper\<close>, and the effects the class has on its surroundings:
  the promises created by \<open>getPool\<close> (a promise is named by its index), the pools
  constructed so far with the configuration each was given (a pool is named by its index;
  \<open>connect()\<close> is called once on each), the requests handed to the driver, and the lines
  written with \<open>console.error\<close>.
\<close>

record state =
  config :: "SqlConfig option"
  poolPromise :: "nat option"
  promises :: "pstate list"
  pools :: "SqlConfig option list"
  executed :: "(nat \<times> QueryType \<times> string \<times> input_call list) list"
  console :: "(string \<times> error) list"

definition initial :: state where
  "initial = \<lparr>config = None, poolPromise = None, promises = [], pools = [],
     executed = [], console = []\<rparr>"

definition console_error :: "string \<Rightarrow> error \<Rightarrow> state \<Rightarrow> state" where
  "console_error msg e s = s\<lparr>console := console s @ [(msg, e)]\<rparr>"

section \<open>Initialization\<close>

definition default_options :: obj where
  "default_options = [''trustServerCertificate'' \<mapsto> JBool True,
     ''trustedConnection'' \<mapsto> JBool True, ''enableArithAbort'' \<mapsto> JBool True]"

definition default_pool :: obj where
  "default_pool = [''max'' \<mapsto> JNum 60, ''min'' \<mapsto> JNum 5,
     ''idleTimeoutMillis'' \<mapsto> JNum 60000]"

text \<open>Object spread \<open>...x\<close> of a possibly absent object.\<close>

definition spread :: "obj option \<Rightarrow> obj" where
  "spread x = (case x of None \<Rightarrow> Map.empty | Some m \<Rightarrow> m)"

definition initialize :: "SqlConfig \<Rightarrow> state \<Rightarrow> state" where
  "initialize cfg s =
     s\<lparr>config := Some (cfg\<lparr>
          options := Some (default_options ++ spread (options cfg)),
          pool := Some (default_pool ++ spread (pool cfg))\<rparr>)\<rparr>"

text \<open>\<open>process.env.x || ""\<close> on an environment of string variables.\<close>

definition env_or_empty :: "(string \<rightharpoonup> string) \<Rightarrow> string \<Rightarrow> string" where
  "env_or_empty penv x = (case penv x of None \<Rightarrow> '''' | Some v \<Rightarrow> (if v \<noteq> [] then v else ''''))"

definition initializeFromEnv :: "(string \<rightharpoonup> string) \<Rightarrow> state \<Rightarrow> state" where
  "initializeFromEnv penv s =
     initialize \<lparr>user = env_or_empty penv ''db_user'',
                 password = env_or_empty penv ''db_password'',
                 server = env_or_empty penv ''server'',
                 database = env_or_empty penv ''database'',
                 options = None, pool = None\<rparr> s"

section \<open>The shared pool\<close>

text \<open>
  \<open>getPool\<close> is synchronous: it returns the cached promise, creating it first when the
  cache is empty. A constructor that throws leaves the cache as it was.
\<close>

definition getPool :: "env \<Rightarrow> state \<Rightarrow> (error + nat) \<times> state" where
  "getPool E s =
     (case poolPromise s of
        None \<Rightarrow>
          (case ctor E (config s) of
             Some e \<Rightarrow> (Inl e, s)
           | None \<Rightarrow>
               (Inr (length (promises s)),
                s\<lparr>poolPromise := Some (length (promises s)),
                  promises := promises s @ [Pending (length (pools s))],
                  pools := pools s @ [config s]\<rparr>))
      | Some p \<Rightarrow> (Inr p, s))"

text \<open>
  The \<open>connect()\<close> behind promise \<open>p\<close> settles and the handlers chained in \<open>getPool\<close> run:
  \<open>then\<close> passes the pool on; \<open>catch\<close> logs, empties the cache and rethrows. A promise
  settles once, so the event changes nothing unless \<open>p\<close> is pending.
\<close>

definition settle :: "nat \<Rightarrow> error option \<Rightarrow> state \<Rightarrow> state" where
  "settle p outcome s =
     (if p < length (promises s) then
        (case promises s ! p of
           Pending k \<Rightarrow>
             (case outcome of
                None \<Rightarrow> s\<lparr>promises := (promises s)[p := Fulfilled k]\<rparr>
              | Some err \<Rightarrow>
                  (console_error ''Database connection failed'' err s)
                    \<lparr>poolPromise := None, promises := (promises s)[p := Rejected err]\<rparr>)
         | _ \<Rightarrow> s)
      else s)"

text \<open>
  \<open>await p\<close> for a promise returned by \<open>getPool\<close>: the caller resumes when the promise has
  settled; a pending promise settles as the environment decides. The index \<open>p\<close> is one that
  \<open>getPool\<close> returned, so it is within \<open>promises\<close> (\<open>pool_inv_cached\<close> below).
\<close>

definition await :: "env \<Rightarrow> nat \<Rightarrow> state \<Rightarrow> (error + nat) \<times> state" where
  "await E p s =
     (case promises s ! p of
        Fulfilled k \<Rightarrow> (Inr k, s)
      | Rejected e \<Rightarrow> (Inl e, s)
      | Pending k \<Rightarrow>
          (case connect E k of
             None \<Rightarrow> (Inr k, settle p None s)
           | Some e \<Rightarrow> (Inl e, settle p (Some e) s)))"

text \<open>\<open>await SqlHelper.getPool()\<close>.\<close>

definition await_getPool :: "env \<Rightarrow> state \<Rightarrow> (error + nat) \<times> state" where
  "await_getPool E s =
     (case getPool E s of
        (Inl e, s1) \<Rightarrow> (Inl e, s1)
      | (Inr p, s1) \<Rightarrow> await E p s1)"

definition getConnection :: "env \<Rightarrow> state \<Rightarrow> (error + nat) \<times> state" where
  "getConnection E s =
     (case ctor E (config s) of
        Some e \<Rightarrow> (Inl e, console_error ''Database connection error:'' e s)
      | None \<Rightarrow>
          (let k = length (pools s); s1 = s\<lparr>pools := pools s @ [config s]\<rparr> in
           case connect E k of
             Some e \<Rightarrow> (Inl e, console_error ''Database connection error:'' e s1)
           | None \<Rightarrow> (Inr k, s1)))"

section \<open>The execution primitive\<close>

text \<open>
  \<open>request.input\<close> either throws or attaches the input to the request; a request is the
  list of inputs attached so far.
\<close>

definition request_input :: "env \<Rightarrow> input_call \<Rightarrow> input_call list \<Rightarrow> error + input_call list" where
  "request_input E c request =
     (case input_throws E c of Some e \<Rightarrow> Inl e | None \<Rightarrow> Inr (request @ [c]))"

text \<open>\<open>Array.prototype.forEach\<close> with a callback that may throw.\<close>

fun forEach :: "('a \<Rightarrow> 'r \<Rightarrow> error + 'r) \<Rightarrow> 'a list \<Rightarrow> 'r \<Rightarrow> error + 'r" where
  "forEach f [] r = Inr r"
| "forEach f (x # xs) r = (case f x r of Inl e \<Rightarrow> Inl e | Inr r' \<Rightarrow> forEach f xs r')"

text \<open>
  The body of the \<open>try\<close> block of \<open>executeQuery\<close>; \<open>parameters\<close> is \<open>None\<close> when the
  argument is omitted.
\<close>

definition executeQuery_try ::
  "env \<Rightarrow> QueryType \<Rightarrow> string \<Rightarrow> SqlParameter list option \<Rightarrow> state \<Rightarrow> (error + IResult) \<times> state" where
  "executeQuery_try E commandType query parameters s =
     (case await_getPool E s of
        (Inl e, s1) \<Rightarrow> (Inl e, s1)
      | (Inr pool_id, s1) \<Rightarrow>
          (case (case parameters of
                   None \<Rightarrow> Inr []
                 | Some ps \<Rightarrow>
                     forEach (\<lambda>param.
                        case ptype param of
                          Some t \<Rightarrow> request_input E (Input3 (pname param) t (pvalue param))
                        | None \<Rightarrow> request_input E (Input2 (pname param) (pvalue param))) ps []) of
             Inl e \<Rightarrow> (Inl e, s1)
           | Inr request \<Rightarrow>
               (exec E commandType query request,
                s1\<lparr>executed := executed s1 @ [(pool_id, commandType, query, request)]\<rparr>)))"

text \<open>The \<open>catch\<close> block: log and rethrow.\<close>

definition executeQuery ::
  "env \<Rightarrow> QueryType \<Rightarrow> string \<Rightarrow> SqlParameter list option \<Rightarrow> state \<Rightarrow> (error + IResult) \<times> state" where
  "executeQuery E commandType query parameters s =
     (case executeQuery_try E commandType query parameters s of
        (Inl e, s1) \<Rightarrow> (Inl e, console_error ''Query execution error:'' e s1)
      | (Inr result, s1) \<Rightarrow> (Inr result, s1))"

section \<open>Result shapers\<close>

text \<open>Optional chaining: \<open>recordset?.[0]\<close>.\<close>

definition first_row :: "obj list option \<Rightarrow> obj option" where
  "first_row rs = (case rs of None \<Rightarrow> None | Some [] \<Rightarrow> None | Some (r # _) \<Rightarrow> Some r)"

text \<open>
  The names of the members of \<open>Object.prototype\<close> (the standard's, with its Annex B, as
  Node has them). A row is a plain object, so it inherits them.
\<close>

definition object_prototype_names :: "string list" where
  "object_prototype_names =
     [''constructor'', ''__defineGetter__'', ''__defineSetter__'', ''hasOwnProperty'',
      ''__lookupGetter__'', ''__lookupSetter__'', ''isPrototypeOf'', ''propertyIsEnumerable'',
      ''toString'', ''valueOf'', ''__proto__'', ''toLocaleString'']"

text \<open>
  The property read \<open>row?.[k]\<close> (\<open>row?.value\<close> is \<open>row?.['value']\<close>): \<open>undefined\<close> on an absent
  row; on a row, its own property \<open>k\<close> when it has one, else the member \<open>k\<close> of
  \<open>Object.prototype\<close> when there is one, else \<open>undefined\<close>.
\<close>

definition get_prop :: "obj option \<Rightarrow> string \<Rightarrow> jsval" where
  "get_prop r k =
     (case r of
        None \<Rightarrow> JUndefined
      | Some row \<Rightarrow>
          (case row k of
             Some v \<Rightarrow> v
           | None \<Rightarrow> (if k \<in> set object_prototype_names then JBuiltin k else JUndefined)))"

definition executeDataset ::
  "env \<Rightarrow> QueryType \<Rightarrow> string \<Rightarrow> SqlParameter list option \<Rightarrow> state \<Rightarrow> (error + obj list) \<times> state" where
  "executeDataset E commandType query parameters s =
     (case executeQuery E commandType query parameters s of
        (Inl e, s1) \<Rightarrow> (Inl e, s1)
      | (Inr result, s1) \<Rightarrow>
          (Inr (case recordset result of None \<Rightarrow> [] | Some rows \<Rightarrow> rows), s1))"

definition executeMultipleDatasets ::
  "env \<Rightarrow> QueryType \<Rightarrow> string \<Rightarrow> SqlParameter list option \<Rightarrow> state \<Rightarrow> (error + obj list list) \<times> state" where
  "executeMultipleDatasets E commandType query parameters s =
     (case executeQuery E commandType query parameters s of
        (Inl e, s1) \<Rightarrow> (Inl e, s1)
      | (Inr result, s1) \<Rightarrow>
          (Inr (case recordsets result of None \<Rightarrow> [] | Some sets \<Rightarrow> sets), s1))"

text \<open>\<open>executeSingle\<close> returns a row or \<open>null\<close> (\<open>None\<close>).\<close>

definition executeSingle ::
  "env \<Rightarrow> QueryType \<Rightarrow> string \<Rightarrow> SqlParameter list option \<Rightarrow> state \<Rightarrow> (error + obj option) \<times> state" where
  "executeSingle E commandType query parameters s =
     (case executeQuery E commandType query parameters s of
        (Inl e, s1) \<Rightarrow> (Inl e, s1)
      | (Inr result, s1) \<Rightarrow> (Inr (first_row (recordset result)), s1))"

definition executeScalar ::
  "env \<Rightarrow> QueryType \<Rightarrow> string \<Rightarrow> SqlParameter list option \<Rightarrow> state \<Rightarrow> (error + jsval) \<times> state" where
  "executeScalar E commandType query parameters s =
     (case executeQuery E commandType query parameters s of
        (Inl e, s1) \<Rightarrow> (Inl e, s1)
      | (Inr result, s1) \<Rightarrow>
          (Inr (js_or (get_prop (first_row (recordset result)) ''value'') JNull), s1))"


text \<open>\<open>rowsAffected[0] || 0\<close> on a list of numbers.\<close>

definition first_or_zero :: "int list \<Rightarrow> int" where
  "first_or_zero xs = (case xs of [] \<Rightarrow> 0 | n # _ \<Rightarrow> (if n \<noteq> 0 then n else 0))"

definition executeUpdate ::
  "env \<Rightarrow> QueryType \<Rightarrow> string \<Rightarrow> SqlParameter list option \<Rightarrow> state \<Rightarrow> (error + int) \<times> state" where
  "executeUpdate E commandType query parameters s =
     (case executeQuery E commandType query parameters s of
        (Inl e, s1) \<Rightarrow> (Inl e, s1)
      | (Inr result, s1) \<Rightarrow> (Inr (first_or_zero (rowsAffected result)), s1))"

definition executeDelete ::
  "env \<Rightarrow> QueryType \<Rightarrow> string \<Rightarrow> SqlParameter list option \<Rightarrow> state \<Rightarrow> (error + int) \<times> state" where
  "executeDelete E commandType query parameters s =
     (case executeQuery E commandType query parameters s of
        (Inl e, s1) \<Rightarrow> (Inl e, s1)
      | (Inr result, s1) \<Rightarrow> (Inr (first_or_zero (rowsAffected result)), s1))"

section \<open>Utility methods\<close>

text \<open>
  \<open>v > n\<close> for a number \<open>n\<close>: the left operand is converted with \<open>ToNumber\<close>, and a
  comparison with \<open>NaN\<close> is false. \<open>ToNumber\<close> of a built-in function or of the prototype
  object goes through its string form, which is not a numeric literal: \<open>NaN\<close>.
\<close>

fun to_number :: "env \<Rightarrow> jsval \<Rightarrow> int option" where
  "to_number E JUndefined = None"
| "to_number E JNull = Some 0"
| "to_number E (JBool b) = Some (if b then 1 else 0)"
| "to_number E (JNum n) = Some n"
| "to_number E JNaN = None"
| "to_number E (JStr s) = string_to_number E s"
| "to_number E (JBuiltin n) = None"

definition js_gt :: "env \<Rightarrow> jsval \<Rightarrow> int \<Rightarrow> bool" where
  "js_gt E v n = (case to_number E v of None \<Rightarrow> False | Some m \<Rightarrow> m > n)"

definition exists ::
  "env \<Rightarrow> string \<Rightarrow> string \<Rightarrow> SqlParameter list option \<Rightarrow> state \<Rightarrow> (error + bool) \<times> state" where
  "exists E tableName whereClause parameters s =
     (case executeScalar E Text
             (''SELECT COUNT(1) as value\<newline>             FROM '' @ tableName @
              ''\<newline>             WHERE '' @ whereClause)
             parameters s of
        (Inl e, s1) \<Rightarrow> (Inl e, s1)
      | (Inr result, s1) \<Rightarrow> (Inr (js_gt E (js_or result (JNum 0)) 0), s1))"

text \<open>\<open>whereClause\<close> is \<open>None\<close> when the argument is omitted; the empty string is falsy too.\<close>

definition count ::
  "env \<Rightarrow> string \<Rightarrow> string option \<Rightarrow> SqlParameter list option \<Rightarrow> state \<Rightarrow> (error + jsval) \<times> state" where
  "count E tableName whereClause parameters s =
     (let query =
        (case whereClause of
           Some w \<Rightarrow>
             (if w \<noteq> []
              then ''SELECT COUNT(1) as value\<newline>               FROM '' @ tableName @
                   ''\<newline>               WHERE '' @ w
              else ''SELECT COUNT(1) as value\<newline>               FROM '' @ tableName)
         | None \<Rightarrow> ''SELECT COUNT(1) as value\<newline>               FROM '' @ tableName)
      in case executeScalar E Text query parameters s of
           (Inl e, s1) \<Rightarrow> (Inl e, s1)
         | (Inr result, s1) \<Rightarrow> (Inr (js_or result (JNum 0)), s1))"

section \<open>Stored procedures with a return value\<close>

text \<open>\<open>name.startsWith('@')\<close> and \<open>name.substring(1)\<close>.\<close>

definition startsWith_at :: "string \<Rightarrow> bool" where
  "startsWith_at n = (case n of [] \<Rightarrow> False | c # _ \<Rightarrow> c = CHR ''@'')"

definition substring1 :: "string \<Rightarrow> string" where
  "substring1 n = drop 1 n"

definition paramName :: "SqlParameter \<Rightarrow> string" where
  "paramName param =
     (if startsWith_at (pname param) then substring1 (pname param) else pname param)"

text \<open>
  The body of the \<open>try\<close> block; \<open>parameters\<close> is \<open>None\<close> when the argument is omitted
  (default \<open>[]\<close>).
\<close>

definition executeWithReturnValue_try ::
  "env \<Rightarrow> string \<Rightarrow> SqlParameter list option \<Rightarrow> state \<Rightarrow> (error + jsval) \<times> state" where
  "executeWithReturnValue_try E query parameters_arg s =
     (let parameters = (case parameters_arg of None \<Rightarrow> [] | Some ps \<Rightarrow> ps) in
      case await_getPool E s of
        (Inl e, s1) \<Rightarrow> (Inl e, s1)
      | (Inr pool_id, s1) \<Rightarrow>
          (case forEach (\<lambda>param.
                   case ptype param of
                     Some t \<Rightarrow> request_input E (Input3 (paramName param) t (pvalue param))
                   | None \<Rightarrow> request_input E (Input2 (paramName param) (pvalue param)))
                 parameters [] of
             Inl e \<Rightarrow> (Inl e, s1)
           | Inr request \<Rightarrow>
               (let s2 = s1\<lparr>executed := executed s1 @ [(pool_id, StoredProcedure, query, request)]\<rparr> in
                case exec E StoredProcedure query request of
                  Inl e \<Rightarrow> (Inl e, s2)
                | Inr result \<Rightarrow> (Inr (js_or (returnValue result) (JNum 0)), s2))))"

definition executeWithReturnValue ::
  "env \<Rightarrow> string \<Rightarrow> SqlParameter list option \<Rightarrow> state \<Rightarrow> (error + jsval) \<times> state" where
  "executeWithReturnValue E query parameters s =
     (case executeWithReturnValue_try E query parameters s of
        (Inl e, s1) \<Rightarrow> (Inl e, console_error ''Query execution error:'' e s1)
      | (Inr v, s1) \<Rightarrow> (Inr v, s1))"

section \<open>Interleavings\<close>

text \<open>
  The calls a program can make on the class and the settlement of a pending
  \<open>connect()\<close>, in any order. An asynchronous method is run to its end at its event;
  the interleaving of callers that wait on the same promise is that of \<open>CallGetPool\<close> and
  \<open>ConnectSettles\<close>.
\<close>

datatype event =
    CallInitialize SqlConfig
  | CallInitializeFromEnv "(string \<times> string) list"
  | CallGetPool
  | ConnectSettles nat "error option"
  | CallGetConnection
  | CallExecuteQuery QueryType string "SqlParameter list option"
  | CallExecuteWithReturnValue string "SqlParameter list option"

fun step :: "env \<Rightarrow> event \<Rightarrow> state \<Rightarrow> state" where
  "step E (CallInitialize cfg) s = initialize cfg s"
| "step E (CallInitializeFromEnv vars) s = initializeFromEnv (map_of vars) s"
| "step E CallGetPool s = snd (getPool E s)"
| "step E (ConnectSettles p outcome) s = settle p outcome s"
| "step E CallGetConnection s = snd (getConnection E s)"
| "step E (CallExecuteQuery commandType query parameters) s =
     snd (executeQuery E commandType query parameters s)"
| "step E (CallExecuteWithReturnValue query parameters) s =
     snd (executeWithReturnValue E query parameters s)"

fun run :: "env \<Rightarrow> event list \<Rightarrow> state \<Rightarrow> state" where
  "run E [] s = s"
| "run E (ev # evs) s = run E evs (step E ev s)"

section \<open>Observations on the model\<close>

text \<open>What a call of \<open>request.input\<close> passed to the driver.\<close>

fun input_name :: "input_call \<Rightarrow> string" where
  "input_name (Input2 n v) = n"
| "input_name (Input3 n t v) = n"

fun input_value :: "input_call \<Rightarrow> jsval" where
  "input_value (Input2 n v) = v"
| "input_value (Input3 n t v) = v"

fun input_type :: "input_call \<Rightarrow> ISqlType option" where
  "input_type (Input2 n v) = None"
| "input_type (Input3 n t v) = Some t"

text \<open>The call \<open>c\<close> binds parameter \<open>p\<close> under the name \<open>n\<close>, with its value and its type (if any).\<close>

definition bound_as :: "string \<Rightarrow> SqlParameter \<Rightarrow> input_call \<Rightarrow> bool" where
  "bound_as n p c = (input_name c = n \<and> input_value c = pvalue p \<and> input_type c = ptype p)"

text \<open>
  The projection of \<open>executeUpdate\<close> and \<open>executeDelete\<close> as the specification words it: the
  first entry of the affected-row counts, 0 when that entry is absent or zero.
\<close>

definition affected_rows_spec :: "IResult \<Rightarrow> int" where
  "affected_rows_spec r =
     (if rowsAffected r = [] then 0
      else if hd (rowsAffected r) = 0 then 0 else hd (rowsAffected r))"

text \<open>
  What every reachable state satisfies: the cached promise exists; a pending promise is
  the cached one; a promise that is pending on, or fulfilled with, a pool names a pool
  that was constructed.
\<close>

definition pool_inv :: "state \<Rightarrow> bool" where
  "pool_inv s \<longleftrightarrow>
     (\<forall>p. poolPromise s = Some p \<longrightarrow> p < length (promises s)) \<and>
     (\<forall>p k. p < length (promises s) \<and> promises s ! p = Pending k \<longrightarrow> poolPromise s = Some p) \<and>
     (\<forall>p k. p < length (promises s) \<and>
            (promises s ! p = Pending k \<or> promises s ! p = Fulfilled k) \<longrightarrow> k < length (pools s))"

text \<open>Two states agree on the cache, the promises and the pools.\<close>

definition same_pool_state :: "state \<Rightarrow> state \<Rightarrow> bool" where
  "same_pool_state s' s \<longleftrightarrow>
     poolPromise s' = poolPromise s \<and> promises s' = promises s \<and> pools s' = pools s"

section \<open>Example inputs\<close>

text \<open>
  A configuration; a driver that accepts every configuration and input and answers every
  request with the result \<open>r\<close>; some results; the state after \<open>initialize\<close>.
\<close>

definition example_config :: SqlConfig where
  "example_config = \<lparr>user = ''sa'', password = ''secret'', server = ''localhost'',
     database = ''shop'', options = None, pool = None\<rparr>"

definition custom_config :: SqlConfig where
  "custom_config = example_config\<lparr>
     options := Some [''trustServerCertificate'' \<mapsto> JBool False, ''encrypt'' \<mapsto> JBool True],
     pool := Some [''max'' \<mapsto> JNum 10]\<rparr>"

definition answering :: "IResult \<Rightarrow> env" where
  "answering r = \<lparr>ctor = (\<lambda>c. None), connect = (\<lambda>k. None), input_throws = (\<lambda>c. None),
     exec = (\<lambda>kind q inputs. Inr r), string_to_number = (\<lambda>s. None)\<rparr>"

definition one_row :: "obj \<Rightarrow> IResult" where
  "one_row r = \<lparr>recordsets = Some [[r]], recordset = Some [r], rowsAffected = [1],
     returnValue = JUndefined\<rparr>"

definition no_rows :: IResult where
  "no_rows = \<lparr>recordsets = Some [[]], recordset = Some [], rowsAffected = [0],
     returnValue = JUndefined\<rparr>"

definition returning :: "jsval \<Rightarrow> IResult" where
  "returning v = \<lparr>recordsets = Some [], recordset = None, rowsAffected = [],
     returnValue = v\<rparr>"

definition configured :: state where
  "configured = initialize example_config initial"

text \<open>
  A driver whose pool constructor dereferences its argument and so throws a \<open>TypeError\<close> on
  an absent configuration, and one whose constructor accepts anything and whose
  connections all fail.
\<close>

definition strict_driver :: env where
  "strict_driver = \<lparr>
     ctor = (\<lambda>c. case c of None \<Rightarrow> Some (TypeError ''Cannot read properties of null'')
                           | Some cfg \<Rightarrow> None),
     connect = (\<lambda>k. None), input_throws = (\<lambda>c. None),
     exec = (\<lambda>kind q inputs. Inr no_rows), string_to_number = (\<lambda>s. None)\<rparr>"

definition lenient_driver :: env where
  "lenient_driver = \<lparr>
     ctor = (\<lambda>c. None),
     connect = (\<lambda>k. Some (ConnectionError ''Failed to connect'')), input_throws = (\<lambda>c. None),
     exec = (\<lambda>kind q inputs. Inr no_rows), string_to_number = (\<lambda>s. None)\<rparr>"

section \<open>Facts about the execution primitive\<close>

lemmas run_defs = answering_def configured_def example_config_def one_row_def no_rows_def
  initial_def initialize_def
  executeQuery_def executeQuery_try_def await_getPool_def getPool_def await_def settle_def console_error_def
  request_input_def

lemma settle_executed: "executed (settle p outcome s) = executed s"
  by (simp add: settle_def console_error_def split: pstate.splits option.splits)

lemma getPool_executed: "executed (snd (getPool E s)) = executed s"
  by (simp add: getPool_def split: option.splits)

lemma await_executed: "executed (snd (await E p s)) = executed s"
  by (simp add: await_def settle_executed split: pstate.splits option.splits)

lemma await_getPool_executed:
  assumes "await_getPool E s = (r, s1)"
  shows "executed s1 = executed s"
proof (cases "getPool E s")
  case (Pair a s0)
  have e0: "executed s0 = executed s"
    using getPool_executed [of E s] Pair by simp
  show ?thesis
  proof (cases a)
    case (Inl e)
    with assms Pair e0 show ?thesis by (simp add: await_getPool_def)
  next
    case (Inr p)
    with assms Pair have "await E p s0 = (r, s1)" by (simp add: await_getPool_def)
    then have "executed s1 = executed s0"
      using await_executed [of E p s0] by simp
    with e0 show ?thesis by simp
  qed
qed

lemma request_input_Inr: "request_input E c r = Inr r' \<Longrightarrow> r' = r @ [c]"
  by (auto simp: request_input_def split: option.splits)

lemma forEach_input:
  "forEach (\<lambda>param. request_input E (g param)) ps r = Inr r' \<Longrightarrow> r' = r @ map g ps"
proof (induction ps arbitrary: r)
  case Nil
  then show ?case by simp
next
  case (Cons a ps)
  from Cons.prems have "forEach (\<lambda>param. request_input E (g param)) ps (r @ [g a]) = Inr r'"
    by (auto split: sum.splits dest: request_input_Inr)
  from Cons.IH [OF this] show ?case by simp
qed

lemma forEach_bind:
  assumes "forEach (\<lambda>param. case ptype param of
             Some t \<Rightarrow> request_input E (Input3 (f param) t (pvalue param))
           | None \<Rightarrow> request_input E (Input2 (f param) (pvalue param))) ps [] = Inr request"
  shows "list_all2 (\<lambda>p c. bound_as (f p) p c) ps request"
proof -
  let ?g = "\<lambda>param. case ptype param of Some t \<Rightarrow> Input3 (f param) t (pvalue param)
                        | None \<Rightarrow> Input2 (f param) (pvalue param)"
  have "(\<lambda>param. case ptype param of
             Some t \<Rightarrow> request_input E (Input3 (f param) t (pvalue param))
           | None \<Rightarrow> request_input E (Input2 (f param) (pvalue param))) =
        (\<lambda>param. request_input E (?g param))"
    by (auto split: option.splits)
  with assms have "request = map ?g ps"
    using forEach_input [of E ?g ps "[]" request] by simp
  then show ?thesis
    by (auto simp: list_all2_conv_all_nth bound_as_def split: option.splits)
qed

lemma bound_as_call:
  "bound_as n p c \<longleftrightarrow>
     c = (case ptype p of None \<Rightarrow> Input2 n (pvalue p) | Some t \<Rightarrow> Input3 n t (pvalue p))"
  by (cases c) (auto simp: bound_as_def split: option.splits)

lemma executeQuery_Inr:
  assumes "executeQuery E commandType query parameters s = (Inr result, s1)"
  shows "\<exists>k request.
           executed s1 = executed s @ [(k, commandType, query, request)] \<and>
           exec E commandType query request = Inr result \<and>
           list_all2 (\<lambda>p c. bound_as (pname p) p c)
             (case parameters of None \<Rightarrow> [] | Some ps \<Rightarrow> ps) request"
proof -
  from assms have tr: "executeQuery_try E commandType query parameters s = (Inr result, s1)"
    by (auto simp: executeQuery_def split: prod.splits sum.splits)
  from tr obtain k s0 where pool: "await_getPool E s = (Inr k, s0)"
    by (auto simp: executeQuery_try_def split: prod.splits sum.splits)
  have ex0: "executed s0 = executed s"
    using pool by (rule await_getPool_executed)
  show ?thesis
  proof (cases parameters)
    case None
    with tr pool ex0 show ?thesis
      by (auto simp: executeQuery_try_def)
  next
    case (Some ps)
    with tr pool obtain request where
      fe: "forEach (\<lambda>param. case ptype param of
             Some t \<Rightarrow> request_input E (Input3 (pname param) t (pvalue param))
           | None \<Rightarrow> request_input E (Input2 (pname param) (pvalue param))) ps [] = Inr request"
      and r: "exec E commandType query request = Inr result"
      and s1: "s1 = s0\<lparr>executed := executed s0 @ [(k, commandType, query, request)]\<rparr>"
      by (auto simp: executeQuery_try_def split: sum.splits)
    from forEach_bind [OF fe] r s1 ex0 Some show ?thesis
      by auto
  qed
qed

lemma get_prop_value:
  "get_prop r ''value'' =
     (case r of None \<Rightarrow> JUndefined
      | Some row \<Rightarrow> (case row ''value'' of None \<Rightarrow> JUndefined | Some v \<Rightarrow> v))"
  by (simp add: get_prop_def object_prototype_names_def split: option.splits)

lemma executeScalar_Inr:
  assumes "executeScalar E ct q ps s = (Inr v, s1)"
  shows "\<exists>result. executeQuery E ct q ps s = (Inr result, s1) \<and>
           v = js_or (get_prop (first_row (recordset result)) ''value'') JNull"
  using assms by (auto simp: executeScalar_def split: prod.splits sum.splits)

lemma executeWithReturnValue_Inr:
  assumes "executeWithReturnValue E query parameters s = (Inr v, s1)"
  shows "\<exists>k request result.
           executed s1 = executed s @ [(k, StoredProcedure, query, request)] \<and>
           list_all2 (\<lambda>p c. bound_as (paramName p) p c)
             (case parameters of None \<Rightarrow> [] | Some ps \<Rightarrow> ps) request \<and>
           exec E StoredProcedure query request = Inr result \<and>
           v = js_or (returnValue result) (JNum 0)"
proof -
  from assms have tr: "executeWithReturnValue_try E query parameters s = (Inr v, s1)"
    by (auto simp: executeWithReturnValue_def split: prod.splits sum.splits)
  from tr obtain k s0 where pool: "await_getPool E s = (Inr k, s0)"
    by (auto simp: executeWithReturnValue_try_def Let_def split: prod.splits sum.splits)
  have ex0: "executed s0 = executed s"
    using pool by (rule await_getPool_executed)
  from tr pool obtain request result where
    fe: "forEach (\<lambda>param. case ptype param of
             Some t \<Rightarrow> request_input E (Input3 (paramName param) t (pvalue param))
           | None \<Rightarrow> request_input E (Input2 (paramName param) (pvalue param)))
          (case parameters of None \<Rightarrow> [] | Some ps \<Rightarrow> ps) [] = Inr request"
    and r: "exec E StoredProcedure query request = Inr result"
    and v: "v = js_or (returnValue result) (JNum 0)"
    and s1: "s1 = s0\<lparr>executed := executed s0 @ [(k, StoredProcedure, query, request)]\<rparr>"
    by (auto simp: executeWithReturnValue_try_def Let_def split: sum.splits)
  from forEach_bind [OF fe] r v s1 ex0 show ?thesis
    by auto
qed

lemma exists_Inr:
  assumes "exists E tableName whereClause parameters s = (Inr b, s1)"
  shows "\<exists>k request result.
           executed s1 = executed s @
             [(k, Text, ''SELECT COUNT(1) as value\<newline>             FROM '' @ tableName @
                        ''\<newline>             WHERE '' @ whereClause, request)] \<and>
           list_all2 (\<lambda>p c. bound_as (pname p) p c)
             (case parameters of None \<Rightarrow> [] | Some ps \<Rightarrow> ps) request \<and>
           exec E Text (''SELECT COUNT(1) as value\<newline>             FROM '' @ tableName @
                        ''\<newline>             WHERE '' @ whereClause) request = Inr result \<and>
           (\<forall>row rows n. recordset result = Some (row # rows) \<and> row ''value'' = Some (JNum n) \<longrightarrow>
              b = (0 < n)) \<and>
           (recordset result = None \<or> recordset result = Some [] \<or>
            (\<exists>row rows. recordset result = Some (row # rows) \<and> row ''value'' = None) \<longrightarrow>
              b = False)"
proof -
  let ?q = "''SELECT COUNT(1) as value\<newline>             FROM '' @ tableName @
                        ''\<newline>             WHERE '' @ whereClause"
  from assms obtain r where
    sc: "executeScalar E Text ?q parameters s = (Inr r, s1)"
    and b: "b = js_gt E (js_or r (JNum 0)) 0"
    by (auto simp: exists_def split: prod.splits sum.splits)
  from executeScalar_Inr [OF sc] obtain result where
    q: "executeQuery E Text ?q parameters s = (Inr result, s1)"
    and r: "r = js_or (get_prop (first_row (recordset result)) ''value'') JNull"
    by blast
  from executeQuery_Inr [OF q] obtain k request where
    log: "executed s1 = executed s @ [(k, Text, ?q, request)]"
    and ex: "exec E Text ?q request = Inr result"
    and bd: "list_all2 (\<lambda>p c. bound_as (pname p) p c)
             (case parameters of None \<Rightarrow> [] | Some ps \<Rightarrow> ps) request"
    by blast
  have v1: "\<forall>row rows n. recordset result = Some (row # rows) \<and> row ''value'' = Some (JNum n) \<longrightarrow>
              b = (0 < n)"
    using b r by (auto simp: first_row_def get_prop_value js_or_def js_gt_def)
  have v2: "recordset result = None \<or> recordset result = Some [] \<or>
            (\<exists>row rows. recordset result = Some (row # rows) \<and> row ''value'' = None) \<longrightarrow>
              b = False"
    using b r by (auto simp: first_row_def get_prop_value js_or_def js_gt_def)
  from log bd ex v1 v2 show ?thesis by blast
qed

lemma count_Inr:
  assumes "count E tableName whereClause parameters s = (Inr v, s1)"
  shows "\<exists>k request result sent.
           (whereClause = None \<or> whereClause = Some [] \<longrightarrow>
              sent = ''SELECT COUNT(1) as value\<newline>               FROM '' @ tableName) \<and>
           (\<forall>w. whereClause = Some w \<and> w \<noteq> [] \<longrightarrow>
              sent = ''SELECT COUNT(1) as value\<newline>               FROM '' @ tableName @
                     ''\<newline>               WHERE '' @ w) \<and>
           executed s1 = executed s @ [(k, Text, sent, request)] \<and>
           list_all2 (\<lambda>p c. bound_as (pname p) p c)
             (case parameters of None \<Rightarrow> [] | Some ps \<Rightarrow> ps) request \<and>
           exec E Text sent request = Inr result \<and>
           (\<forall>row rows n. recordset result = Some (row # rows) \<and> row ''value'' = Some (JNum n) \<longrightarrow>
              v = JNum n) \<and>
           (recordset result = None \<or> recordset result = Some [] \<or>
            (\<exists>row rows. recordset result = Some (row # rows) \<and> row ''value'' = None) \<longrightarrow>
              v = JNum 0)"
proof -
  define sent where "sent =
        (case whereClause of
           Some w \<Rightarrow>
             (if w \<noteq> []
              then ''SELECT COUNT(1) as value\<newline>               FROM '' @ tableName @
                   ''\<newline>               WHERE '' @ w
              else ''SELECT COUNT(1) as value\<newline>               FROM '' @ tableName)
         | None \<Rightarrow> ''SELECT COUNT(1) as value\<newline>               FROM '' @ tableName)"
  from assms obtain r where
    sc: "executeScalar E Text sent parameters s = (Inr r, s1)"
    and v: "v = js_or r (JNum 0)"
    by (auto simp: count_def Let_def sent_def split: prod.splits sum.splits)
  from executeScalar_Inr [OF sc] obtain result where
    q: "executeQuery E Text sent parameters s = (Inr result, s1)"
    and r: "r = js_or (get_prop (first_row (recordset result)) ''value'') JNull"
    by blast
  from executeQuery_Inr [OF q] obtain k request where
    log: "executed s1 = executed s @ [(k, Text, sent, request)]"
    and ex: "exec E Text sent request = Inr result"
    and bd: "list_all2 (\<lambda>p c. bound_as (pname p) p c)
             (case parameters of None \<Rightarrow> [] | Some ps \<Rightarrow> ps) request"
    by blast
  have q1: "whereClause = None \<or> whereClause = Some [] \<longrightarrow>
              sent = ''SELECT COUNT(1) as value\<newline>               FROM '' @ tableName"
    by (auto simp: sent_def)
  have q2: "\<forall>w. whereClause = Some w \<and> w \<noteq> [] \<longrightarrow>
              sent = ''SELECT COUNT(1) as value\<newline>               FROM '' @ tableName @
                     ''\<newline>               WHERE '' @ w"
    by (auto simp: sent_def)
  have v1: "\<forall>row rows n. recordset result = Some (row # rows) \<and> row ''value'' = Some (JNum n) \<longrightarrow>
              v = JNum n"
    using v r by (auto simp: first_row_def get_prop_value js_or_def)
  have v2: "recordset result = None \<or> recordset result = Some [] \<or>
            (\<exists>row rows. recordset result = Some (row # rows) \<and> row ''value'' = None) \<longrightarrow>
              v = JNum 0"
    using v r by (auto simp: first_row_def get_prop_value js_or_def)
  from q1 q2 log bd ex v1 v2 show ?thesis by blast
qed

section \<open>Facts about the pool\<close>

lemma getPool_cached: "poolPromise s = Some p \<Longrightarrow> getPool E s = (Inr p, s)"
  by (simp add: getPool_def)

lemma getPool_throws:
  "poolPromise s = None \<Longrightarrow> ctor E (config s) = Some e \<Longrightarrow> getPool E s = (Inl e, s)"
  by (simp add: getPool_def)

lemma getPool_creates:
  "poolPromise s = None \<Longrightarrow> ctor E (config s) = None \<Longrightarrow>
   getPool E s =
     (Inr (length (promises s)),
      s\<lparr>poolPromise := Some (length (promises s)),
        promises := promises s @ [Pending (length (pools s))],
        pools := pools s @ [config s]\<rparr>)"
  by (simp add: getPool_def)

lemma settle_noop:
  "\<not> (p < length (promises s) \<and> (\<exists>k. promises s ! p = Pending k)) \<Longrightarrow> settle p outcome s = s"
  by (auto simp: settle_def split: pstate.splits)

lemma settle_success:
  "p < length (promises s) \<Longrightarrow> promises s ! p = Pending k \<Longrightarrow>
   settle p None s = s\<lparr>promises := (promises s)[p := Fulfilled k]\<rparr>"
  by (simp add: settle_def)

lemma settle_failure:
  "p < length (promises s) \<Longrightarrow> promises s ! p = Pending k \<Longrightarrow>
   settle p (Some err) s =
     (console_error ''Database connection failed'' err s)
       \<lparr>poolPromise := None, promises := (promises s)[p := Rejected err]\<rparr>"
  by (simp add: settle_def)


lemma await_rejected: "promises s ! p = Rejected e \<Longrightarrow> await E p s = (Inl e, s)"
  by (simp add: await_def)


lemma await_state: "snd (await E p s) = s \<or> (\<exists>outcome. snd (await E p s) = settle p outcome s)"
  by (auto simp: await_def split: pstate.splits option.splits)

subsection \<open>The invariant holds in every reachable state\<close>

lemma pool_invI:
  assumes "\<And>p. poolPromise s = Some p \<Longrightarrow> p < length (promises s)"
    and "\<And>p k. p < length (promises s) \<Longrightarrow> promises s ! p = Pending k \<Longrightarrow> poolPromise s = Some p"
    and "\<And>p k. p < length (promises s) \<Longrightarrow>
           promises s ! p = Pending k \<or> promises s ! p = Fulfilled k \<Longrightarrow> k < length (pools s)"
  shows "pool_inv s"
  unfolding pool_inv_def using assms by blast

lemma pool_inv_cached: "pool_inv s \<Longrightarrow> poolPromise s = Some p \<Longrightarrow> p < length (promises s)"
  unfolding pool_inv_def by blast

lemma pool_inv_pending:
  "pool_inv s \<Longrightarrow> p < length (promises s) \<Longrightarrow> promises s ! p = Pending k \<Longrightarrow> poolPromise s = Some p"
  unfolding pool_inv_def by blast

lemma pool_inv_pool_id:
  "pool_inv s \<Longrightarrow> p < length (promises s) \<Longrightarrow>
   promises s ! p = Pending k \<or> promises s ! p = Fulfilled k \<Longrightarrow> k < length (pools s)"
  unfolding pool_inv_def by blast

lemma pool_inv_same: "same_pool_state s' s \<Longrightarrow> pool_inv s' = pool_inv s"
  by (simp add: pool_inv_def same_pool_state_def)

lemma same_trans: "same_pool_state s2 s1 \<Longrightarrow> same_pool_state s1 s \<Longrightarrow> same_pool_state s2 s"
  by (simp add: same_pool_state_def)

lemma same_initialize: "same_pool_state (initialize cfg s) s"
  by (simp add: same_pool_state_def initialize_def)

lemma pool_inv_initial: "pool_inv initial"
  by (simp add: pool_inv_def initial_def)

lemma pool_inv_getPool:
  assumes "pool_inv s"
  shows "pool_inv (snd (getPool E s))"
proof (cases "poolPromise s")
  case (Some p)
  with assms show ?thesis by (simp add: getPool_cached)
next
  case None
  show ?thesis
  proof (cases "ctor E (config s)")
    case (Some e)
    with None assms show ?thesis by (simp add: getPool_throws)
  next
    case ctor_ok: None
    define s' where "s' = snd (getPool E s)"
    have f1: "poolPromise s' = Some (length (promises s))"
      and f2: "promises s' = promises s @ [Pending (length (pools s))]"
      and f3: "pools s' = pools s @ [config s]"
      by (simp_all add: s'_def getPool_creates [OF None ctor_ok])
    have "pool_inv s'"
    proof (rule pool_invI)
      fix p
      assume "poolPromise s' = Some p"
      with f1 show "p < length (promises s')" by (simp add: f2)
    next
      fix p k
      assume p: "p < length (promises s')" and pk: "promises s' ! p = Pending k"
      show "poolPromise s' = Some p"
      proof (cases "p < length (promises s)")
        case True
        with pk have "promises s ! p = Pending k" by (simp add: f2 nth_append)
        from pool_inv_pending [OF assms True this] None show ?thesis by simp
      next
        case False
        with p have "p = length (promises s)" by (simp add: f2)
        with f1 show ?thesis by simp
      qed
    next
      fix p k
      assume p: "p < length (promises s')"
        and pk: "promises s' ! p = Pending k \<or> promises s' ! p = Fulfilled k"
      show "k < length (pools s')"
      proof (cases "p < length (promises s)")
        case True
        with pk have "promises s ! p = Pending k \<or> promises s ! p = Fulfilled k"
          by (simp add: f2 nth_append)
        from pool_inv_pool_id [OF assms True this] show ?thesis by (simp add: f3)
      next
        case False
        with p have "p = length (promises s)" by (simp add: f2)
        with pk show ?thesis by (simp add: f2 f3)
      qed
    qed
    then show ?thesis by (simp add: s'_def)
  qed
qed

lemma pool_inv_settle:
  assumes "pool_inv s"
  shows "pool_inv (settle p outcome s)"
proof (cases "p < length (promises s) \<and> (\<exists>k. promises s ! p = Pending k)")
  case False
  then have "settle p outcome s = s" by (rule settle_noop)
  with assms show ?thesis by simp
next
  case True
  then obtain k where p: "p < length (promises s)" and pk: "promises s ! p = Pending k"
    by blast
  have cached: "poolPromise s = Some p"
    using pool_inv_pending [OF assms p pk] .
  define s' where "s' = settle p outcome s"
  have f2: "promises s' = (promises s)[p := (case outcome of None \<Rightarrow> Fulfilled k | Some err \<Rightarrow> Rejected err)]"
    and f3: "pools s' = pools s"
    and f1: "poolPromise s' = (case outcome of None \<Rightarrow> Some p | Some err \<Rightarrow> None)"
    using cached
    by (cases outcome; simp add: s'_def settle_success [OF p pk] settle_failure [OF p pk]
          console_error_def)+
  have "pool_inv s'"
  proof (rule pool_invI)
    fix q
    assume "poolPromise s' = Some q"
    with f1 have "q = p" by (cases outcome) simp_all
    with p show "q < length (promises s')" by (simp add: f2)
  next
    fix q j
    assume q: "q < length (promises s')" and qj: "promises s' ! q = Pending j"
    from q have q': "q < length (promises s)" by (simp add: f2)
    have "q \<noteq> p"
      using qj q' by (cases outcome) (auto simp: f2)
    with qj q' have "promises s ! q = Pending j" by (simp add: f2)
    from pool_inv_pending [OF assms q' this] cached \<open>q \<noteq> p\<close> show "poolPromise s' = Some q"
      by simp
  next
    fix q j
    assume q: "q < length (promises s')"
      and qj: "promises s' ! q = Pending j \<or> promises s' ! q = Fulfilled j"
    from q have q': "q < length (promises s)" by (simp add: f2)
    show "j < length (pools s')"
    proof (cases "q = p")
      case True
      with qj q' have "j = k" by (cases outcome) (auto simp: f2)
      with pool_inv_pool_id [OF assms p] pk show ?thesis by (simp add: f3)
    next
      case False
      with qj q' have "promises s ! q = Pending j \<or> promises s ! q = Fulfilled j"
        by (simp add: f2)
      from pool_inv_pool_id [OF assms q' this] show ?thesis by (simp add: f3)
    qed
  qed
  then show ?thesis by (simp add: s'_def)
qed

lemma pool_inv_await: "pool_inv s \<Longrightarrow> pool_inv (snd (await E p s))"
  using await_state [of E p s] pool_inv_settle [of s p] by auto

lemma pool_inv_await_getPool: "pool_inv s \<Longrightarrow> pool_inv (snd (await_getPool E s))"
proof -
  assume w: "pool_inv s"
  obtain a s0 where g: "getPool E s = (a, s0)" by (cases "getPool E s")
  from w g have w0: "pool_inv s0" using pool_inv_getPool [of s E] by simp
  show ?thesis
  proof (cases a)
    case (Inl e)
    with g w0 show ?thesis by (simp add: await_getPool_def)
  next
    case (Inr p)
    with g have "snd (await_getPool E s) = snd (await E p s0)"
      by (simp add: await_getPool_def)
    with w0 show ?thesis by (simp add: pool_inv_await)
  qed
qed

lemma pool_inv_grow:
  assumes "pool_inv s" "poolPromise s' = poolPromise s" "promises s' = promises s"
    "length (pools s) \<le> length (pools s')"
  shows "pool_inv s'"
proof (rule pool_invI)
  fix p
  assume "poolPromise s' = Some p"
  with assms(2,3) pool_inv_cached [OF assms(1), of p] show "p < length (promises s')" by simp
next
  fix p k
  assume "p < length (promises s')" "promises s' ! p = Pending k"
  with assms(2,3) pool_inv_pending [OF assms(1), of p k] show "poolPromise s' = Some p" by simp
next
  fix p k
  assume "p < length (promises s')" "promises s' ! p = Pending k \<or> promises s' ! p = Fulfilled k"
  with assms(3) pool_inv_pool_id [OF assms(1), of p k] have "k < length (pools s)" by simp
  with assms(4) show "k < length (pools s')" by simp
qed

lemma getConnection_fields:
  "poolPromise (snd (getConnection E s)) = poolPromise s \<and>
   promises (snd (getConnection E s)) = promises s \<and>
   length (pools s) \<le> length (pools (snd (getConnection E s)))"
  by (simp add: getConnection_def Let_def console_error_def split: option.splits)

lemma pool_inv_getConnection: "pool_inv s \<Longrightarrow> pool_inv (snd (getConnection E s))"
  using getConnection_fields [of E s] by (blast intro: pool_inv_grow)

lemma same_executeQuery_try:
  "same_pool_state (snd (executeQuery_try E ct q ps s)) (snd (await_getPool E s))"
  by (simp add: executeQuery_try_def same_pool_state_def split: prod.splits sum.splits)

lemma same_executeQuery:
  "same_pool_state (snd (executeQuery E ct q ps s)) (snd (await_getPool E s))"
proof -
  have "same_pool_state (snd (executeQuery E ct q ps s)) (snd (executeQuery_try E ct q ps s))"
    by (simp add: executeQuery_def same_pool_state_def console_error_def split: prod.splits sum.splits)
  then show ?thesis
    using same_executeQuery_try by (rule same_trans)
qed

lemma same_executeWithReturnValue_try:
  "same_pool_state (snd (executeWithReturnValue_try E q ps s)) (snd (await_getPool E s))"
  by (simp add: executeWithReturnValue_try_def Let_def same_pool_state_def
      split: prod.splits sum.splits)

lemma same_executeWithReturnValue:
  "same_pool_state (snd (executeWithReturnValue E q ps s)) (snd (await_getPool E s))"
proof -
  have "same_pool_state (snd (executeWithReturnValue E q ps s))
          (snd (executeWithReturnValue_try E q ps s))"
    by (simp add: executeWithReturnValue_def same_pool_state_def console_error_def
        split: prod.splits sum.splits)
  then show ?thesis
    using same_executeWithReturnValue_try by (rule same_trans)
qed

lemma pool_inv_step: "pool_inv s \<Longrightarrow> pool_inv (step E ev s)"
proof (cases ev)
  case (CallExecuteQuery ct q ps)
  assume "pool_inv s"
  then show ?thesis
    using pool_inv_same [OF same_executeQuery, of E ct q ps s] pool_inv_await_getPool [of s E] CallExecuteQuery
    by simp
next
  case (CallExecuteWithReturnValue q ps)
  assume "pool_inv s"
  then show ?thesis
    using pool_inv_same [OF same_executeWithReturnValue, of E q ps s] pool_inv_await_getPool [of s E]
      CallExecuteWithReturnValue
    by simp
qed (simp_all add: pool_inv_getPool pool_inv_settle pool_inv_getConnection pool_inv_same [OF same_initialize]
      initializeFromEnv_def)

lemma pool_inv_run: "pool_inv s \<Longrightarrow> pool_inv (run E evs s)"
  by (induction evs arbitrary: s) (simp_all add: pool_inv_step)

lemma pool_inv_reachable: "pool_inv (run E evs initial)"
  by (simp add: pool_inv_run pool_inv_initial)

subsection \<open>A fulfilled cache stays\<close>





section \<open>The pool is a lazy singleton\<close>



text \<open>
  C2. In a reachable state whose cached promise \<open>p\<close> is pending on pool \<open>k\<close>: when the
  connection fails with \<open>err\<close>, the cache is emptied and \<open>p\<close> is rejected with \<open>err\<close>, so a
  caller awaiting it gets \<open>err\<close> (a caller of \<open>await getPool()\<close> in that state gets \<open>err\<close>
  when the environment fails the connection). The next \<open>getPool\<close>, if the constructor
  accepts the configuration, returns a different promise, pending on a newly constructed
  pool different from \<open>k\<close>, while \<open>p\<close> stays rejected.
\<close>

theorem getPool_failure_resets:
  assumes "s = run E history initial"
    and "poolPromise s = Some p"
    and "promises s ! p = Pending k"
  shows "poolPromise (settle p (Some err) s) = None \<and>
         promises (settle p (Some err) s) ! p = Rejected err \<and>
         await E p (settle p (Some err) s) = (Inl err, settle p (Some err) s) \<and>
         (connect E k = Some err \<longrightarrow> await_getPool E s = (Inl err, settle p (Some err) s)) \<and>
         (ctor E (config s) = None \<longrightarrow>
            (\<exists>p'. fst (getPool E (settle p (Some err) s)) = Inr p' \<and> p' \<noteq> p \<and>
               poolPromise (snd (getPool E (settle p (Some err) s))) = Some p' \<and>
               promises (snd (getPool E (settle p (Some err) s))) ! p' = Pending (length (pools s)) \<and>
               k < length (pools s) \<and>
               promises (snd (getPool E (settle p (Some err) s))) ! p = Rejected err \<and>
               pools (snd (getPool E (settle p (Some err) s))) = pools s @ [config s]))"
proof -
  have w: "pool_inv s" using assms(1) by (simp add: pool_inv_reachable)
  have p: "p < length (promises s)" using w assms(2) by (rule pool_inv_cached)
  have k: "k < length (pools s)" using pool_inv_pool_id [OF w p] assms(3) by simp
  define s1 where "s1 = settle p (Some err) s"
  have f1: "poolPromise s1 = None"
    and f2: "promises s1 = (promises s)[p := Rejected err]"
    and f3: "pools s1 = pools s"
    and f4: "config s1 = config s"
    by (simp_all add: s1_def settle_failure [OF p assms(3)] console_error_def)
  have r: "promises s1 ! p = Rejected err" using p by (simp add: f2)
  have a: "await E p s1 = (Inl err, s1)" using r by (rule await_rejected)
  have b: "connect E k = Some err \<longrightarrow> await_getPool E s = (Inl err, s1)"
    using assms(2,3) by (simp add: await_getPool_def getPool_cached await_def s1_def)
  have c: "ctor E (config s) = None \<longrightarrow>
            (\<exists>p'. fst (getPool E s1) = Inr p' \<and> p' \<noteq> p \<and>
               poolPromise (snd (getPool E s1)) = Some p' \<and>
               promises (snd (getPool E s1)) ! p' = Pending (length (pools s)) \<and>
               k < length (pools s) \<and>
               promises (snd (getPool E s1)) ! p = Rejected err \<and>
               pools (snd (getPool E s1)) = pools s @ [config s])"
  proof
    assume "ctor E (config s) = None"
    then have "ctor E (config s1) = None" by (simp add: f4)
    note g = getPool_creates [OF f1 this]
    have "fst (getPool E s1) = Inr (length (promises s))" by (simp add: g f2)
    moreover have "length (promises s) \<noteq> p" using p by simp
    moreover have "poolPromise (snd (getPool E s1)) = Some (length (promises s))"
      by (simp add: g f2)
    moreover have "promises (snd (getPool E s1)) ! length (promises s) = Pending (length (pools s))"
      by (simp add: g f2 f3 nth_append)
    moreover have "promises (snd (getPool E s1)) ! p = Rejected err"
      using p by (simp add: g f2 nth_append)
    moreover have "pools (snd (getPool E s1)) = pools s @ [config s]"
      by (simp add: g f3 f4)
    ultimately show "\<exists>p'. fst (getPool E s1) = Inr p' \<and> p' \<noteq> p \<and>
               poolPromise (snd (getPool E s1)) = Some p' \<and>
               promises (snd (getPool E s1)) ! p' = Pending (length (pools s)) \<and>
               k < length (pools s) \<and>
               promises (snd (getPool E s1)) ! p = Rejected err \<and>
               pools (snd (getPool E s1)) = pools s @ [config s]"
      using k by blast
  qed
  from f1 r a b c show ?thesis unfolding s1_def by (intro conjI)
qed

theorem getPool_failure_resets_witness:
  "poolPromise (run lenient_driver [CallInitialize example_config, CallGetPool] initial) = Some 0 \<and>
   promises (run lenient_driver [CallInitialize example_config, CallGetPool] initial) ! 0 = Pending 0 \<and>
   connect lenient_driver 0 = Some (ConnectionError ''Failed to connect'') \<and>
   fst (await_getPool lenient_driver
          (run lenient_driver [CallInitialize example_config, CallGetPool] initial)) =
     Inl (ConnectionError ''Failed to connect'') \<and>
   poolPromise (snd (await_getPool lenient_driver
          (run lenient_driver [CallInitialize example_config, CallGetPool] initial))) = None \<and>
   fst (getPool lenient_driver (snd (await_getPool lenient_driver
          (run lenient_driver [CallInitialize example_config, CallGetPool] initial)))) = Inr 1"
proof -
  let ?E = lenient_driver
  let ?h = "[CallInitialize example_config, CallGetPool]"
  let ?s = "run ?E ?h initial"
  let ?err = "ConnectionError ''Failed to connect''"
  have h1: "poolPromise ?s = Some 0"
    by (simp add: initialize_def initial_def getPool_def lenient_driver_def)
  have h2: "promises ?s ! 0 = Pending 0"
    by (simp add: initialize_def initial_def getPool_def lenient_driver_def)
  have h3: "connect ?E 0 = Some ?err" by (simp add: lenient_driver_def)
  have h4: "ctor ?E (config ?s) = None" by (simp add: lenient_driver_def)
  have l: "length (promises ?s) = 1"
    by (simp add: initialize_def initial_def getPool_def lenient_driver_def)
  note t = getPool_failure_resets [of ?s ?E ?h 0 0 ?err, OF refl h1 h2]
  from t h3 have aw: "await_getPool ?E ?s = (Inl ?err, settle 0 (Some ?err) ?s)" by blast
  from t have c1: "poolPromise (settle 0 (Some ?err) ?s) = None" by blast
  from t h4 obtain p' where
    g: "fst (getPool ?E (settle 0 (Some ?err) ?s)) = Inr p'" and "p' \<noteq> 0"
    and "poolPromise (snd (getPool ?E (settle 0 (Some ?err) ?s))) = Some p'"
    by blast
  have g1: "fst (getPool ?E (settle 0 (Some ?err) ?s)) = Inr 1"
    using c1 h4 l h2
    by (simp add: getPool_def settle_def console_error_def)
  show ?thesis
    unfolding aw using h1 h2 h3 c1 g1 by simp
qed

text \<open>
  C3, as the code has it. With no configuration set and an empty cache, the helper makes
  no check of its own: it hands the absent configuration to the driver's pool constructor.
  If the constructor throws, \<open>getPool\<close>, \<open>getConnection\<close> and \<open>executeQuery\<close> fail with
  exactly the error it threw and nothing is cached; if it does not, a pool is constructed
  with the absent configuration and its connection is started. Every error of \<open>getPool\<close>
  is one the constructor threw.
\<close>

theorem absent_configuration_reaches_driver:
  assumes "config s = None" and "poolPromise s = None"
  shows "(\<forall>e. ctor E None = Some e \<longrightarrow>
            getPool E s = (Inl e, s) \<and>
            fst (getConnection E s) = Inl e \<and>
            fst (executeQuery E commandType query parameters s) = Inl e) \<and>
         (ctor E None = None \<longrightarrow>
            fst (getPool E s) = Inr (length (promises s)) \<and>
            pools (snd (getPool E s)) = pools s @ [None] \<and>
            pools (snd (getConnection E s)) = pools s @ [None]) \<and>
         (\<forall>e. fst (getPool E s) = Inl e \<longrightarrow> ctor E None = Some e)"
proof (intro conjI allI impI)
  fix e
  assume c: "ctor E None = Some e"
  with assms show g: "getPool E s = (Inl e, s)" by (simp add: getPool_throws)
  from c assms show "fst (getConnection E s) = Inl e" by (simp add: getConnection_def)
  from g show "fst (executeQuery E commandType query parameters s) = Inl e"
    by (simp add: executeQuery_def executeQuery_try_def await_getPool_def)
next
  assume c: "ctor E None = None"
  with assms have g: "getPool E s =
     (Inr (length (promises s)),
      s\<lparr>poolPromise := Some (length (promises s)),
        promises := promises s @ [Pending (length (pools s))],
        pools := pools s @ [config s]\<rparr>)"
    by (simp add: getPool_creates)
  show "fst (getPool E s) = Inr (length (promises s))" by (simp add: g)
  show "pools (snd (getPool E s)) = pools s @ [None]" using assms by (simp add: g)
  show "pools (snd (getConnection E s)) = pools s @ [None]"
    using assms c by (simp add: getConnection_def Let_def console_error_def split: option.splits)
next
  fix e
  assume "fst (getPool E s) = Inl e"
  with assms show "ctor E None = Some e"
    by (simp add: getPool_def split: option.splits)
qed

theorem absent_configuration_reaches_driver_witness:
  "config initial = None \<and> poolPromise initial = None \<and>
   ctor strict_driver None = Some (TypeError ''Cannot read properties of null'') \<and>
   getPool strict_driver initial = (Inl (TypeError ''Cannot read properties of null''), initial) \<and>
   ctor lenient_driver None = None \<and>
   pools (snd (getPool lenient_driver initial)) = [None]"
proof -
  have h1: "config initial = None" and h2: "poolPromise initial = None"
    by (simp_all add: initial_def)
  have h3: "ctor strict_driver None = Some (TypeError ''Cannot read properties of null'')"
    by (simp add: strict_driver_def)
  have h4: "ctor lenient_driver None = None" by (simp add: lenient_driver_def)
  have p: "pools initial = []" by (simp add: initial_def)
  note t1 = absent_configuration_reaches_driver [of initial strict_driver Text "[]" None, OF h1 h2]
  note t2 = absent_configuration_reaches_driver [of initial lenient_driver Text "[]" None, OF h1 h2]
  from t1 h3 have c1:
    "getPool strict_driver initial = (Inl (TypeError ''Cannot read properties of null''), initial)"
    by blast
  from t2 h4 have "pools (snd (getPool lenient_driver initial)) = pools initial @ [None]"
    by blast
  with p have c2: "pools (snd (getPool lenient_driver initial)) = [None]" by simp
  from h1 h2 h3 c1 h4 c2 show ?thesis by (intro conjI)
qed

text \<open>
  C3 as stated fails: with no configuration, what the caller gets is whatever the driver
  does with the absent configuration, a \<open>TypeError\<close> of the constructor with one driver, a
  \<open>ConnectionError\<close> after a connection was started with the absent configuration with
  another; in neither case a \<open>ConfigurationError\<close>.
\<close>

theorem absent_configuration_counterexample:
  "config initial = None \<and> poolPromise initial = None \<and>
   fst (getPool strict_driver initial) = Inl (TypeError ''Cannot read properties of null'') \<and>
   fst (getPool strict_driver initial) \<noteq> Inl ConfigurationError \<and>
   fst (await_getPool lenient_driver initial) = Inl (ConnectionError ''Failed to connect'') \<and>
   pools (snd (await_getPool lenient_driver initial)) = [None]"
  by (simp add: initial_def strict_driver_def lenient_driver_def getPool_def await_getPool_def
      await_def settle_def console_error_def)

section \<open>Initialization\<close>

text \<open>
  C9. \<open>initialize\<close> stores the caller's configuration with \<open>options\<close> and \<open>pool\<close> replaced:
  each property is the caller's when the caller gave it and the default otherwise. The
  defaults are \<open>trustServerCertificate\<close>, \<open>trustedConnection\<close>, \<open>enableArithAbort\<close>, all
  \<open>true\<close>, and \<open>max = 60\<close>, \<open>min = 5\<close>, \<open>idleTimeoutMillis = 60000\<close>. \<open>initializeFromEnv\<close> is
  \<open>initialize\<close> on the variables \<open>db_user\<close>, \<open>db_password\<close>, \<open>server\<close>, \<open>database\<close>, each
  the empty string when absent, with no \<open>options\<close> and no \<open>pool\<close>.
\<close>

theorem initialize_defaults:
  "config (initialize cfg s) =
     Some (cfg\<lparr>
       options := Some (\<lambda>k.
         case options cfg of
           None \<Rightarrow> default_options k
         | Some given \<Rightarrow> (case given k of None \<Rightarrow> default_options k | Some v \<Rightarrow> Some v)),
       pool := Some (\<lambda>k.
         case pool cfg of
           None \<Rightarrow> default_pool k
         | Some given \<Rightarrow> (case given k of None \<Rightarrow> default_pool k | Some v \<Rightarrow> Some v))\<rparr>) \<and>
   default_options ''trustServerCertificate'' = Some (JBool True) \<and>
   default_options ''trustedConnection'' = Some (JBool True) \<and>
   default_options ''enableArithAbort'' = Some (JBool True) \<and>
   dom default_options = {''trustServerCertificate'', ''trustedConnection'', ''enableArithAbort''} \<and>
   default_pool ''max'' = Some (JNum 60) \<and>
   default_pool ''min'' = Some (JNum 5) \<and>
   default_pool ''idleTimeoutMillis'' = Some (JNum 60000) \<and>
   dom default_pool = {''max'', ''min'', ''idleTimeoutMillis''} \<and>
   initializeFromEnv penv s =
     initialize \<lparr>user = (case penv ''db_user'' of None \<Rightarrow> '''' | Some v \<Rightarrow> v),
                 password = (case penv ''db_password'' of None \<Rightarrow> '''' | Some v \<Rightarrow> v),
                 server = (case penv ''server'' of None \<Rightarrow> '''' | Some v \<Rightarrow> v),
                 database = (case penv ''database'' of None \<Rightarrow> '''' | Some v \<Rightarrow> v),
                 options = None, pool = None\<rparr> s"
proof -
  have m: "d ++ spread x =
      (\<lambda>k. case x of None \<Rightarrow> d k
                    | Some given \<Rightarrow> (case given k of None \<Rightarrow> d k | Some v \<Rightarrow> Some v))"
    for d :: obj and x
    by (rule ext) (simp add: spread_def map_add_def split: option.splits)
  have a: "config (initialize cfg s) =
     Some (cfg\<lparr>
       options := Some (\<lambda>k.
         case options cfg of
           None \<Rightarrow> default_options k
         | Some given \<Rightarrow> (case given k of None \<Rightarrow> default_options k | Some v \<Rightarrow> Some v)),
       pool := Some (\<lambda>k.
         case pool cfg of
           None \<Rightarrow> default_pool k
         | Some given \<Rightarrow> (case given k of None \<Rightarrow> default_pool k | Some v \<Rightarrow> Some v))\<rparr>)"
    by (simp add: initialize_def m)
  have b: "default_options ''trustServerCertificate'' = Some (JBool True) \<and>
   default_options ''trustedConnection'' = Some (JBool True) \<and>
   default_options ''enableArithAbort'' = Some (JBool True) \<and>
   dom default_options = {''trustServerCertificate'', ''trustedConnection'', ''enableArithAbort''}"
    by (auto simp: default_options_def)
  have c: "default_pool ''max'' = Some (JNum 60) \<and>
   default_pool ''min'' = Some (JNum 5) \<and>
   default_pool ''idleTimeoutMillis'' = Some (JNum 60000) \<and>
   dom default_pool = {''max'', ''min'', ''idleTimeoutMillis''}"
    by (auto simp: default_pool_def)
  have e: "env_or_empty penv x = (case penv x of None \<Rightarrow> '''' | Some v \<Rightarrow> v)" for x
    by (simp add: env_or_empty_def split: option.splits)
  have d: "initializeFromEnv penv s =
     initialize \<lparr>user = (case penv ''db_user'' of None \<Rightarrow> '''' | Some v \<Rightarrow> v),
                 password = (case penv ''db_password'' of None \<Rightarrow> '''' | Some v \<Rightarrow> v),
                 server = (case penv ''server'' of None \<Rightarrow> '''' | Some v \<Rightarrow> v),
                 database = (case penv ''database'' of None \<Rightarrow> '''' | Some v \<Rightarrow> v),
                 options = None, pool = None\<rparr> s"
    by (simp add: initializeFromEnv_def e)
  from a b c d show ?thesis by (intro conjI) (simp_all only: )
qed

theorem initialize_defaults_witness:
  "\<exists>c opts pl.
      config (initialize custom_config initial) = Some c \<and>
      user c = ''sa'' \<and>
      options c = Some opts \<and>
      opts ''trustServerCertificate'' = Some (JBool False) \<and>
      opts ''trustedConnection'' = Some (JBool True) \<and>
      opts ''enableArithAbort'' = Some (JBool True) \<and>
      opts ''encrypt'' = Some (JBool True) \<and>
      pool c = Some pl \<and>
      pl ''max'' = Some (JNum 10) \<and>
      pl ''min'' = Some (JNum 5) \<and>
      pl ''idleTimeoutMillis'' = Some (JNum 60000)"
  unfolding initialize_defaults [of custom_config initial Map.empty, THEN conjunct1]
  by (simp add: custom_config_def example_config_def default_options_def default_pool_def)

section \<open>Result shapers\<close>

text \<open>
  C4, as the code has it. When the first record set is absent or has zero rows,
  \<open>executeScalar\<close> returns \<open>null\<close>. When the first row has a field named \<open>value\<close>,
  \<open>executeScalar\<close> returns that field's value if it is truthy, and \<open>null\<close> if it is falsy
  (\<open>0\<close>, \<open>NaN\<close>, the empty string, \<open>false\<close>, \<open>null\<close>, \<open>undefined\<close>): the source reads
  \<open>result.recordset?.[0]?.value || null\<close>.
\<close>

theorem executeScalar_value:
  assumes "executeQuery E commandType query parameters s = (Inr result, s1)"
  shows "((recordset result = None \<or> recordset result = Some []) \<longrightarrow>
            executeScalar E commandType query parameters s = (Inr JNull, s1)) \<and>
         (\<forall>row rows v. recordset result = Some (row # rows) \<and> row ''value'' = Some v \<longrightarrow>
            executeScalar E commandType query parameters s =
              (Inr (if truthy v then v else JNull), s1))"
  using assms by (auto simp: executeScalar_def first_row_def get_prop_value js_or_def)

theorem executeScalar_value_witness:
  "executeQuery (answering (one_row [''value'' \<mapsto> JNum 42])) Text ''SELECT 42 AS value'' None configured =
     (Inr (one_row [''value'' \<mapsto> JNum 42]),
      snd (executeQuery (answering (one_row [''value'' \<mapsto> JNum 42])) Text ''SELECT 42 AS value'' None configured)) \<and>
   fst (executeScalar (answering (one_row [''value'' \<mapsto> JNum 42])) Text ''SELECT 42 AS value'' None configured) =
     Inr (JNum 42)"
proof -
  have h: "executeQuery (answering (one_row [''value'' \<mapsto> JNum 42])) Text ''SELECT 42 AS value'' None configured =
     (Inr (one_row [''value'' \<mapsto> JNum 42]),
      snd (executeQuery (answering (one_row [''value'' \<mapsto> JNum 42])) Text ''SELECT 42 AS value'' None configured))"
    by (simp add: run_defs)
  have r: "recordset (one_row [''value'' \<mapsto> JNum 42]) = Some ([''value'' \<mapsto> JNum 42] # [])"
    by (simp add: one_row_def)
  from executeScalar_value [OF h] r have
    "executeScalar (answering (one_row [''value'' \<mapsto> JNum 42])) Text ''SELECT 42 AS value'' None configured =
       (Inr (if truthy (JNum 42) then JNum 42 else JNull),
        snd (executeQuery (answering (one_row [''value'' \<mapsto> JNum 42])) Text ''SELECT 42 AS value'' None configured))"
    by (meson fun_upd_same)
  with h show ?thesis by simp
qed

text \<open>
  C4 as stated fails: a first row whose field \<open>value\<close> is the number 0 is present, and
  \<open>executeScalar\<close> returns \<open>null\<close>, not 0.
\<close>

theorem executeScalar_zero_counterexample:
  "recordset (one_row [''value'' \<mapsto> JNum 0]) = Some [[''value'' \<mapsto> JNum 0]] \<and>
   fst (executeQuery (answering (one_row [''value'' \<mapsto> JNum 0])) Text ''SELECT 0 AS value'' None configured) =
     Inr (one_row [''value'' \<mapsto> JNum 0]) \<and>
   fst (executeScalar (answering (one_row [''value'' \<mapsto> JNum 0])) Text ''SELECT 0 AS value'' None configured) =
     Inr JNull"
  by (simp add: run_defs executeScalar_def first_row_def get_prop_value js_or_def)




text \<open>
  C6. A successful \<open>executeWithReturnValue\<close> hands the driver exactly one request,
  executed as a stored procedure, with one input per parameter, in order: the name is the
  parameter's name without its first character when that character is \<open>@\<close>, and the name
  itself otherwise; value and type are the parameter's. The value returned is the
  procedure's return value when it is truthy and 0 otherwise, so 0 when the procedure
  returned none.
\<close>

theorem executeWithReturnValue_strips_marker:
  assumes "executeWithReturnValue E query parameters s = (Inr v, s1)"
  shows "\<exists>k request result.
           executed s1 = executed s @ [(k, StoredProcedure, query, request)] \<and>
           list_all2
             (\<lambda>p c. bound_as (case pname p of [] \<Rightarrow> [] | ch # rest \<Rightarrow>
                                  if ch = CHR ''@'' then rest else pname p) p c)
             (case parameters of None \<Rightarrow> [] | Some ps \<Rightarrow> ps) request \<and>
           exec E StoredProcedure query request = Inr result \<and>
           v = (if truthy (returnValue result) then returnValue result else JNum 0) \<and>
           (returnValue result = JUndefined \<longrightarrow> v = JNum 0)"
proof -
  have strip: "paramName p = (case pname p of [] \<Rightarrow> [] | ch # rest \<Rightarrow>
                                  if ch = CHR ''@'' then rest else pname p)" for p
    by (simp add: paramName_def startsWith_at_def substring1_def split: list.splits)
  from executeWithReturnValue_Inr [OF assms] obtain k request result where
    log: "executed s1 = executed s @ [(k, StoredProcedure, query, request)]"
    and b: "list_all2 (\<lambda>p c. bound_as (paramName p) p c)
             (case parameters of None \<Rightarrow> [] | Some ps \<Rightarrow> ps) request"
    and ex: "exec E StoredProcedure query request = Inr result"
    and v: "v = js_or (returnValue result) (JNum 0)"
    by blast
  have v1: "v = (if truthy (returnValue result) then returnValue result else JNum 0)"
    using v by (simp add: js_or_def)
  have v2: "returnValue result = JUndefined \<longrightarrow> v = JNum 0"
    using v by (simp add: js_or_def)
  from log b [unfolded strip] ex v1 v2 show ?thesis by blast
qed

theorem executeWithReturnValue_strips_marker_witness:
  "fst (executeWithReturnValue (answering (returning JUndefined)) ''dbo.CloseOrder''
          (Some [\<lparr>pname = ''@id'', pvalue = JNum 42, ptype = None\<rparr>,
                 \<lparr>pname = ''reason'', pvalue = JStr ''done'', ptype = Some (SqlType ''VarChar'')\<rparr>])
          configured) = Inr (JNum 0) \<and>
   (\<exists>k. executed (snd (executeWithReturnValue (answering (returning JUndefined)) ''dbo.CloseOrder''
          (Some [\<lparr>pname = ''@id'', pvalue = JNum 42, ptype = None\<rparr>,
                 \<lparr>pname = ''reason'', pvalue = JStr ''done'', ptype = Some (SqlType ''VarChar'')\<rparr>])
          configured)) =
      executed configured @
        [(k, StoredProcedure, ''dbo.CloseOrder'',
          [Input2 ''id'' (JNum 42), Input3 ''reason'' (SqlType ''VarChar'') (JStr ''done'')])])"
proof -
  let ?ps = "[\<lparr>pname = ''@id'', pvalue = JNum 42, ptype = None\<rparr>,
                 \<lparr>pname = ''reason'', pvalue = JStr ''done'', ptype = Some (SqlType ''VarChar'')\<rparr>]"
  let ?r = "executeWithReturnValue (answering (returning JUndefined)) ''dbo.CloseOrder''
          (Some ?ps) configured"
  have f: "fst ?r = Inr (JNum 0)"
    by (simp add: executeWithReturnValue_def executeWithReturnValue_try_def run_defs returning_def
        js_or_def paramName_def startsWith_at_def substring1_def)
  then have h: "?r = (Inr (JNum 0), snd ?r)"
    by (simp add: prod_eq_iff)
  from executeWithReturnValue_strips_marker [OF h] obtain k request where
    log: "executed (snd ?r) = executed configured @ [(k, StoredProcedure, ''dbo.CloseOrder'', request)]"
    and b: "list_all2
             (\<lambda>p c. bound_as (case pname p of [] \<Rightarrow> [] | ch # rest \<Rightarrow>
                                  if ch = CHR ''@'' then rest else pname p) p c) ?ps request"
    by auto
  from b have "request = [Input2 ''id'' (JNum 42), Input3 ''reason'' (SqlType ''VarChar'') (JStr ''done'')]"
    by (auto simp: list_all2_Cons1 bound_as_call)
  with log f show ?thesis by blast
qed

text \<open>
  C7. When the execution outcome has no first record set, or one with zero rows,
  \<open>executeDataset\<close> returns the empty list; when the outcome has no record sets,
  \<open>executeMultipleDatasets\<close> returns the empty list. (The result type is a list: it has no
  \<open>null\<close> or \<open>undefined\<close> inhabitant.)
\<close>

theorem executeDataset_empty:
  assumes "executeQuery E commandType query parameters s = (Inr result, s1)"
  shows "((recordset result = None \<or> recordset result = Some []) \<longrightarrow>
            executeDataset E commandType query parameters s = (Inr [], s1)) \<and>
         (recordsets result = None \<longrightarrow>
            executeMultipleDatasets E commandType query parameters s = (Inr [], s1))"
  using assms by (auto simp: executeDataset_def executeMultipleDatasets_def)

theorem executeDataset_empty_witness:
  "fst (executeQuery (answering no_rows) Text ''SELECT * FROM Orders WHERE 1 = 0'' None configured) =
     Inr no_rows \<and>
   recordset no_rows = Some [] \<and>
   fst (executeDataset (answering no_rows) Text ''SELECT * FROM Orders WHERE 1 = 0'' None configured) =
     Inr [] \<and>
   recordsets (returning JUndefined\<lparr>recordsets := None\<rparr>) = None \<and>
   fst (executeMultipleDatasets (answering (returning JUndefined\<lparr>recordsets := None\<rparr>)) StoredProcedure
          ''dbo.Touch'' None configured) = Inr []"
proof -
  have h1: "executeQuery (answering no_rows) Text ''SELECT * FROM Orders WHERE 1 = 0'' None configured =
     (Inr no_rows, snd (executeQuery (answering no_rows) Text ''SELECT * FROM Orders WHERE 1 = 0'' None configured))"
    by (simp add: run_defs)
  have h2: "executeQuery (answering (returning JUndefined\<lparr>recordsets := None\<rparr>)) StoredProcedure
          ''dbo.Touch'' None configured =
     (Inr (returning JUndefined\<lparr>recordsets := None\<rparr>),
      snd (executeQuery (answering (returning JUndefined\<lparr>recordsets := None\<rparr>)) StoredProcedure
          ''dbo.Touch'' None configured))"
    by (simp add: run_defs)
  have r1: "recordset no_rows = Some []" by (simp add: no_rows_def)
  have r2: "recordsets (returning JUndefined\<lparr>recordsets := None\<rparr>) = None" by simp
  from executeDataset_empty [OF h1] r1 have
    c1: "executeDataset (answering no_rows) Text ''SELECT * FROM Orders WHERE 1 = 0'' None configured =
        (Inr [], snd (executeQuery (answering no_rows) Text ''SELECT * FROM Orders WHERE 1 = 0'' None configured))"
    by blast
  from executeDataset_empty [OF h2] r2 have
    c2: "executeMultipleDatasets (answering (returning JUndefined\<lparr>recordsets := None\<rparr>)) StoredProcedure
          ''dbo.Touch'' None configured =
        (Inr [], snd (executeQuery (answering (returning JUndefined\<lparr>recordsets := None\<rparr>)) StoredProcedure
          ''dbo.Touch'' None configured))"
    by blast
  have f1: "fst (executeQuery (answering no_rows) Text ''SELECT * FROM Orders WHERE 1 = 0'' None configured) =
     Inr no_rows"
    by (simp add: run_defs)
  show ?thesis
    unfolding c1 c2 f1 using r1 r2 by simp
qed

text \<open>
  C8. A successful \<open>exists\<close> sends one \<open>Text\<close> query, \<open>SELECT COUNT(1) as value\<close> from the
  table with the where clause, and returns whether the number in the field \<open>value\<close> of the
  first row is greater than 0; it returns \<open>false\<close> when there is no such value. A successful
  \<open>count\<close> sends the same query, without the \<open>WHERE\<close> part when the where clause is omitted
  (or empty), and returns that number; it returns 0 when there is no such value.
\<close>

theorem exists_and_count:
  "(\<forall>b s1. exists E tableName whereClause parameters s = (Inr b, s1) \<longrightarrow>
      (\<exists>k request result.
           executed s1 = executed s @
             [(k, Text, ''SELECT COUNT(1) as value\<newline>             FROM '' @ tableName @
                        ''\<newline>             WHERE '' @ whereClause, request)] \<and>
           list_all2 (\<lambda>p c. bound_as (pname p) p c)
             (case parameters of None \<Rightarrow> [] | Some ps \<Rightarrow> ps) request \<and>
           exec E Text (''SELECT COUNT(1) as value\<newline>             FROM '' @ tableName @
                        ''\<newline>             WHERE '' @ whereClause) request = Inr result \<and>
           (\<forall>row rows n. recordset result = Some (row # rows) \<and> row ''value'' = Some (JNum n) \<longrightarrow>
              b = (0 < n)) \<and>
           (recordset result = None \<or> recordset result = Some [] \<or>
            (\<exists>row rows. recordset result = Some (row # rows) \<and> row ''value'' = None) \<longrightarrow>
              b = False))) \<and>
   (\<forall>v s1. count E tableName optionalWhere parameters s = (Inr v, s1) \<longrightarrow>
      (\<exists>k request result sent.
           (optionalWhere = None \<or> optionalWhere = Some [] \<longrightarrow>
              sent = ''SELECT COUNT(1) as value\<newline>               FROM '' @ tableName) \<and>
           (\<forall>w. optionalWhere = Some w \<and> w \<noteq> [] \<longrightarrow>
              sent = ''SELECT COUNT(1) as value\<newline>               FROM '' @ tableName @
                     ''\<newline>               WHERE '' @ w) \<and>
           executed s1 = executed s @ [(k, Text, sent, request)] \<and>
           list_all2 (\<lambda>p c. bound_as (pname p) p c)
             (case parameters of None \<Rightarrow> [] | Some ps \<Rightarrow> ps) request \<and>
           exec E Text sent request = Inr result \<and>
           (\<forall>row rows n. recordset result = Some (row # rows) \<and> row ''value'' = Some (JNum n) \<longrightarrow>
              v = JNum n) \<and>
           (recordset result = None \<or> recordset result = Some [] \<or>
            (\<exists>row rows. recordset result = Some (row # rows) \<and> row ''value'' = None) \<longrightarrow>
              v = JNum 0)))"
proof (intro conjI allI impI)
  fix b s1
  assume "exists E tableName whereClause parameters s = (Inr b, s1)"
  then show "\<exists>k request result.
           executed s1 = executed s @
             [(k, Text, ''SELECT COUNT(1) as value\<newline>             FROM '' @ tableName @
                        ''\<newline>             WHERE '' @ whereClause, request)] \<and>
           list_all2 (\<lambda>p c. bound_as (pname p) p c)
             (case parameters of None \<Rightarrow> [] | Some ps \<Rightarrow> ps) request \<and>
           exec E Text (''SELECT COUNT(1) as value\<newline>             FROM '' @ tableName @
                        ''\<newline>             WHERE '' @ whereClause) request = Inr result \<and>
           (\<forall>row rows n. recordset result = Some (row # rows) \<and> row ''value'' = Some (JNum n) \<longrightarrow>
              b = (0 < n)) \<and>
           (recordset result = None \<or> recordset result = Some [] \<or>
            (\<exists>row rows. recordset result = Some (row # rows) \<and> row ''value'' = None) \<longrightarrow>
              b = False)"
    by (rule exists_Inr)
next
  fix v s1
  assume "count E tableName optionalWhere parameters s = (Inr v, s1)"
  then show "\<exists>k request result sent.
           (optionalWhere = None \<or> optionalWhere = Some [] \<longrightarrow>
              sent = ''SELECT COUNT(1) as value\<newline>               FROM '' @ tableName) \<and>
           (\<forall>w. optionalWhere = Some w \<and> w \<noteq> [] \<longrightarrow>
              sent = ''SELECT COUNT(1) as value\<newline>               FROM '' @ tableName @
                     ''\<newline>               WHERE '' @ w) \<and>
           executed s1 = executed s @ [(k, Text, sent, request)] \<and>
           list_all2 (\<lambda>p c. bound_as (pname p) p c)
             (case parameters of None \<Rightarrow> [] | Some ps \<Rightarrow> ps) request \<and>
           exec E Text sent request = Inr result \<and>
           (\<forall>row rows n. recordset result = Some (row # rows) \<and> row ''value'' = Some (JNum n) \<longrightarrow>
              v = JNum n) \<and>
           (recordset result = None \<or> recordset result = Some [] \<or>
            (\<exists>row rows. recordset result = Some (row # rows) \<and> row ''value'' = None) \<longrightarrow>
              v = JNum 0)"
    by (rule count_Inr)
qed

theorem exists_and_count_witness:
  "fst (exists (answering (one_row [''value'' \<mapsto> JNum 3])) ''Orders'' ''Status = @s''
          (Some [\<lparr>pname = ''s'', pvalue = JStr ''Open'', ptype = None\<rparr>]) configured) = Inr True \<and>
   fst (count (answering (one_row [''value'' \<mapsto> JNum 3])) ''Orders'' None None configured) =
     Inr (JNum 3) \<and>
   (\<exists>k request.
      executed (snd (exists (answering (one_row [''value'' \<mapsto> JNum 3])) ''Orders'' ''Status = @s''
          (Some [\<lparr>pname = ''s'', pvalue = JStr ''Open'', ptype = None\<rparr>]) configured)) =
      executed configured @
        [(k, Text, ''SELECT COUNT(1) as value\<newline>             FROM Orders\<newline>             WHERE Status = @s'',
          request)]) \<and>
   (\<exists>k request.
      executed (snd (count (answering (one_row [''value'' \<mapsto> JNum 3])) ''Orders'' None None configured)) =
      executed configured @
        [(k, Text, ''SELECT COUNT(1) as value\<newline>               FROM Orders'', request)])"
proof -
  let ?E = "answering (one_row [''value'' \<mapsto> JNum 3])"
  let ?ps = "Some [\<lparr>pname = ''s'', pvalue = JStr ''Open'', ptype = None\<rparr>]"
  let ?e = "exists ?E ''Orders'' ''Status = @s'' ?ps configured"
  let ?c = "count ?E ''Orders'' None None configured"
  have fe: "fst ?e = Inr True"
    by (simp add: exists_def executeScalar_def run_defs first_row_def get_prop_value js_or_def js_gt_def)
  have fc: "fst ?c = Inr (JNum 3)"
    by (simp add: count_def executeScalar_def run_defs first_row_def get_prop_value js_or_def)
  from fe have he: "?e = (Inr True, snd ?e)" by (simp add: prod_eq_iff)
  from fc have hc: "?c = (Inr (JNum 3), snd ?c)" by (simp add: prod_eq_iff)
  note te = exists_and_count [of ?E "''Orders''" "''Status = @s''" ?ps configured None,
    THEN conjunct1, rule_format, OF he]
  note tc = exists_and_count [of ?E "''Orders''" "[]" None configured None,
    THEN conjunct2, rule_format, OF hc]
  from te have le:
    "\<exists>k request. executed (snd ?e) = executed configured @
        [(k, Text, ''SELECT COUNT(1) as value\<newline>             FROM Orders\<newline>             WHERE Status = @s'',
          request)]"
    by auto
  from tc have lc:
    "\<exists>k request. executed (snd ?c) = executed configured @
        [(k, Text, ''SELECT COUNT(1) as value\<newline>               FROM Orders'', request)]"
    by auto
  from fe fc le lc show ?thesis by blast
qed

text \<open>
  C10. \<open>executeUpdate\<close> and \<open>executeDelete\<close> are equal as functions of the command kind,
  the query, the parameters, the environment and the state, and both are the
  specification's projection of the outcome of \<open>executeQuery\<close>: the first affected-row
  count, 0 when absent or zero; a failure of \<open>executeQuery\<close> is passed on unchanged.
\<close>

theorem update_delete_equal:
  "executeUpdate E commandType query parameters s = executeDelete E commandType query parameters s \<and>
   executeUpdate E commandType query parameters s =
     (case executeQuery E commandType query parameters s of
        (Inl e, s1) \<Rightarrow> (Inl e, s1)
      | (Inr result, s1) \<Rightarrow> (Inr (affected_rows_spec result), s1))"
proof -
  have fz: "first_or_zero (rowsAffected r) = affected_rows_spec r" for r
    by (simp add: first_or_zero_def affected_rows_spec_def split: list.splits)
  show ?thesis
    by (simp add: executeUpdate_def executeDelete_def fz split: prod.splits sum.splits)
qed

end
